theory Spec2Isabelle
  imports Main "HOL-Library.Word" "HOL-Library.Sublist" "HOL-Library.AList"
begin

unbundle bit_operations_syntax

section \<open>Python strings\<close>

text \<open>
  A Python \<open>str\<close> is a sequence of code points. The model uses HOL's \<open>string\<close>, a list
  of 8-bit characters, and reads each \<open>char\<close> as the code point of the same number: the
  strings of the model are the Python strings whose code points are below 256 (ASCII and
  the Latin-1 supplement). On these code points every library function the analyzer and
  the parser call is given by a finite table, written out below from CPython's Unicode
  database; \<open>len\<close> is \<open>length\<close>, since one character is one code point.
\<close>

definition isspace :: "char \<Rightarrow> bool" where
  \<comment> \<open>\<open>str.isspace\<close> on one code point: TAB, LF, VT, FF, CR, FS, GS, RS, US, SPACE, NEL, NBSP.\<close>
  "isspace c =
     (let n = (of_char c :: nat)
      in (9 \<le> n \<and> n \<le> 13) \<or> (28 \<le> n \<and> n \<le> 32) \<or> n = 133 \<or> n = 160)"

definition isdecimal :: "char \<Rightarrow> bool" where
  \<comment> \<open>the class \<open>\d\<close> of \<open>re\<close> on a \<open>str\<close> pattern: the decimal digits.\<close>
  "isdecimal c = (let n = (of_char c :: nat) in 48 \<le> n \<and> n \<le> 57)"

definition islower_az :: "char \<Rightarrow> bool" where
  \<comment> \<open>the class \<open>[a-z]\<close> of \<open>re\<close>.\<close>
  "islower_az c = (let n = (of_char c :: nat) in 97 \<le> n \<and> n \<le> 122)"

definition lower_char :: "char \<Rightarrow> char" where
  \<comment> \<open>the lowercase mapping: A to Z, and the Latin-1 capitals but the multiplication sign.\<close>
  "lower_char c =
     (let n = (of_char c :: nat)
      in if (65 \<le> n \<and> n \<le> 90) \<or> (192 \<le> n \<and> n \<le> 214) \<or> (216 \<le> n \<and> n \<le> 222)
         then char_of (n + 32) else c)"

definition str_lower :: "string \<Rightarrow> string" where
  \<comment> \<open>\<open>s.lower()\<close>\<close>
  "str_lower s = map lower_char s"

function str_replace :: "string \<Rightarrow> string \<Rightarrow> string \<Rightarrow> string" where
  \<comment> \<open>\<open>s.replace(old, new)\<close>: every occurrence of \<open>old\<close>, leftmost first, not overlapping.\<close>
  "str_replace old new s =
     (if old = [] then new @ concat (map (\<lambda>c. c # new) s)
      else if s = [] then []
      else if prefix old s then new @ str_replace old new (drop (length old) s)
      else hd s # str_replace old new (tl s))"
  by pat_completeness auto
termination
  by (relation "measure (\<lambda>(old, new, s). length s)") auto

declare str_replace.simps [simp del]

function str_split :: "string \<Rightarrow> string list" where
  \<comment> \<open>\<open>s.split()\<close>: skip whitespace, take a word up to the next whitespace, go on.\<close>
  "str_split s =
     (let s' = dropWhile isspace s
      in if s' = [] then []
         else takeWhile (\<lambda>c. \<not> isspace c) s' # str_split (dropWhile (\<lambda>c. \<not> isspace c) s'))"
  by pat_completeness auto
termination
proof (relation "measure length", goal_cases)
  case 1
  show ?case by simp
next
  case (2 s s')
  then obtain c cs where s': "s' = c # cs" and c: "\<not> isspace c"
    by (metis dropWhile_eq_Nil_conv hd_dropWhile list.collapse)
  have "length (dropWhile (\<lambda>c. \<not> isspace c) s') \<le> length cs"
    using s' c by (simp add: length_dropWhile_le)
  moreover have "length s' \<le> length s"
    using 2 by (simp add: length_dropWhile_le)
  ultimately show ?case using s' by simp
qed

declare str_split.simps [simp del]

fun str_contains :: "string \<Rightarrow> string \<Rightarrow> bool" where
  \<comment> \<open>\<open>sub in s\<close>\<close>
  "str_contains sub [] = (sub = [])"
| "str_contains sub (c # cs) = (prefix sub (c # cs) \<or> str_contains sub cs)"

section \<open>UTF-8 and SHA-256\<close>

text \<open>
  \<open>hashlib.sha256(value.encode()).hexdigest()\<close>: the UTF-8 bytes of the string, the
  SHA-256 compression of FIPS 180-4 on 32-bit words, and the digest as 64 lowercase
  hexadecimal digits.
\<close>

definition str_encode :: "string \<Rightarrow> 8 word list" where
  \<comment> \<open>\<open>s.encode()\<close>: one byte below 128, two bytes from 128 to 255.\<close>
  "str_encode s =
     concat (map (\<lambda>c. let n = (of_char c :: nat)
                       in if n < 128 then [of_nat n]
                          else [of_nat (192 + n div 64), of_nat (128 + n mod 64)]) s)"

definition is_prime :: "nat \<Rightarrow> bool" where
  "is_prime n = (1 < n \<and> list_all (\<lambda>d. n mod d \<noteq> 0) [2..<n])"

fun int_root :: "nat \<Rightarrow> int \<Rightarrow> nat \<Rightarrow> int \<Rightarrow> int" where
  \<comment> \<open>the integer part of the \<open>k\<close>-th root of \<open>x\<close>, bit by bit from bit \<open>b - 1\<close> down.\<close>
  "int_root k x 0 r = r"
| "int_root k x (Suc b) r = int_root k x b (if (r + 2 ^ b) ^ k \<le> x then r + 2 ^ b else r)"

definition frac_root_bits :: "nat \<Rightarrow> nat \<Rightarrow> 32 word" where
  \<comment> \<open>the first 32 bits of the fractional part of the \<open>k\<close>-th root of \<open>p\<close>.\<close>
  "frac_root_bits k p = of_int (int_root k (int p * 2 ^ (32 * k)) 48 0)"

definition K256 :: "32 word list" where
  \<comment> \<open>the round constants: from the cube roots of the first 64 primes, 2 to 311.\<close>
  "K256 = map (frac_root_bits 3) (filter is_prime [2..<312])"

type_synonym sha_state =
  "32 word \<times> 32 word \<times> 32 word \<times> 32 word \<times> 32 word \<times> 32 word \<times> 32 word \<times> 32 word"

definition H256 :: sha_state where
  \<comment> \<open>the initial hash value: from the square roots of the first 8 primes.\<close>
  "H256 =
     (let h = frac_root_bits 2
      in (h 2, h 3, h 5, h 7, h 11, h 13, h 17, h 19))"

definition rotr :: "nat \<Rightarrow> 32 word \<Rightarrow> 32 word" where
  "rotr n x = word_rotr n x"

definition Ch :: "32 word \<Rightarrow> 32 word \<Rightarrow> 32 word \<Rightarrow> 32 word" where
  "Ch x y z = (x AND y) XOR (NOT x AND z)"

definition Maj :: "32 word \<Rightarrow> 32 word \<Rightarrow> 32 word \<Rightarrow> 32 word" where
  "Maj x y z = (x AND y) XOR (x AND z) XOR (y AND z)"

definition bsig0 :: "32 word \<Rightarrow> 32 word" where
  "bsig0 x = rotr 2 x XOR rotr 13 x XOR rotr 22 x"

definition bsig1 :: "32 word \<Rightarrow> 32 word" where
  "bsig1 x = rotr 6 x XOR rotr 11 x XOR rotr 25 x"

definition ssig0 :: "32 word \<Rightarrow> 32 word" where
  "ssig0 x = rotr 7 x XOR rotr 18 x XOR drop_bit 3 x"

definition ssig1 :: "32 word \<Rightarrow> 32 word" where
  "ssig1 x = rotr 17 x XOR rotr 19 x XOR drop_bit 10 x"

definition sha_pad :: "8 word list \<Rightarrow> 8 word list" where
  \<comment> \<open>the bit 1, zeros up to 56 modulo 64, the bit length as 8 bytes, big end first.\<close>
  "sha_pad m =
     (let l = length m
      in m @ [0x80] @ replicate ((119 - l mod 64) mod 64) 0 @
         map (\<lambda>i. ucast (drop_bit (8 * (7 - i)) (of_nat (8 * l) :: 64 word))) [0..<8])"

function chunks :: "nat \<Rightarrow> 'a list \<Rightarrow> 'a list list" where
  "chunks n xs = (if n = 0 \<or> xs = [] then [] else take n xs # chunks n (drop n xs))"
  by pat_completeness auto
termination
  by (relation "measure (\<lambda>(n, xs). length xs)") auto

declare chunks.simps [simp del]

definition be_word :: "8 word list \<Rightarrow> 32 word" where
  "be_word bs = foldl (\<lambda>w b. push_bit 8 w OR ucast b) 0 bs"

fun schedule_ext :: "nat \<Rightarrow> 32 word list \<Rightarrow> 32 word list" where
  "schedule_ext 0 w = w"
| "schedule_ext (Suc k) w =
     (let i = length w
      in schedule_ext k
           (w @ [ssig1 (w ! (i - 2)) + w ! (i - 7) + ssig0 (w ! (i - 15)) + w ! (i - 16)]))"

definition schedule :: "8 word list \<Rightarrow> 32 word list" where
  "schedule block = schedule_ext 48 (map be_word (chunks 4 block))"

fun sha_round :: "32 word \<times> 32 word \<Rightarrow> sha_state \<Rightarrow> sha_state" where
  "sha_round (k, w) (a, b, c, d, e, f, g, h) =
     (let T1 = h + bsig1 e + Ch e f g + k + w;
          T2 = bsig0 a + Maj a b c
      in (T1 + T2, a, b, c, d + T1, e, f, g))"

fun sha_add :: "sha_state \<Rightarrow> sha_state \<Rightarrow> sha_state" where
  "sha_add (a, b, c, d, e, f, g, h) (a', b', c', d', e', f', g', h') =
     (a + a', b + b', c + c', d + d', e + e', f + f', g + g', h + h')"

definition compress :: "8 word list \<Rightarrow> sha_state \<Rightarrow> sha_state" where
  "compress block hs = sha_add hs (fold sha_round (zip K256 (schedule block)) hs)"

definition sha256 :: "8 word list \<Rightarrow> sha_state" where
  "sha256 m = fold compress (chunks 64 (sha_pad m)) H256"

definition hex_word :: "32 word \<Rightarrow> string" where
  "hex_word w =
     map (\<lambda>i. ''0123456789abcdef'' ! unat (drop_bit (4 * (7 - i)) w AND 0xF)) [0..<8]"

fun hexdigest :: "sha_state \<Rightarrow> string" where
  "hexdigest (a, b, c, d, e, f, g, h) =
     concat (map hex_word [a, b, c, d, e, f, g, h])"

section \<open>analyzer.py\<close>

text \<open>
  The dictionary that \<open>analyze_string\<close> returns has six fixed keys and is a record; its
  fields carry the prefix \<open>res_\<close>, since \<open>length\<close> is the list function and two keys
  are keys of the filters as well. \<open>character_frequency_map\<close> is a Python \<open>dict\<close>: an
  association list in insertion order, where writing an existing key keeps its place and
  a new key goes to the end (\<open>AList.update\<close>).
\<close>

record analysis =
  res_length :: int
  res_is_palindrome :: bool
  res_unique_characters :: int
  res_word_count :: int
  res_sha256_hash :: string
  res_character_frequency_map :: "(char \<times> int) list"

definition dict_get :: "('k \<times> 'v) list \<Rightarrow> 'k \<Rightarrow> 'v \<Rightarrow> 'v" where
  \<comment> \<open>\<open>d.get(k, default)\<close>\<close>
  "dict_get d k dflt = (case map_of d k of None \<Rightarrow> dflt | Some v \<Rightarrow> v)"

definition dict_keys :: "('k \<times> 'v) list \<Rightarrow> 'k list" where
  "dict_keys d = map fst d"

definition dict_values :: "('k \<times> 'v) list \<Rightarrow> 'v list" where
  "dict_values d = map snd d"

fun character_frequency_loop :: "(char \<times> int) list \<Rightarrow> string \<Rightarrow> (char \<times> int) list" where
  \<comment> \<open>\<open>for char in value: m[char] = m.get(char, 0) + 1\<close>\<close>
  "character_frequency_loop m [] = m"
| "character_frequency_loop m (char # rest) =
     character_frequency_loop (AList.update char (dict_get m char 0 + 1) m) rest"

definition analyze_string :: "string \<Rightarrow> analysis" where
  "analyze_string value =
     (let length = int (List.length value);
          cleaned = str_lower (str_replace '' '' '''' value);
          is_palindrome = (cleaned = rev cleaned);
          unique_characters = int (card (set value));
          word_count = int (List.length (str_split value));
          sha256_hash = hexdigest (sha256 (str_encode value));
          character_frequency_map = character_frequency_loop [] value
      in \<lparr> res_length = length,
           res_is_palindrome = is_palindrome,
           res_unique_characters = unique_characters,
           res_word_count = word_count,
           res_sha256_hash = sha256_hash,
           res_character_frequency_map = character_frequency_map \<rparr>)"

section \<open>nlp_parser.py\<close>

text \<open>
  The filters are a \<open>dict\<close> with at most five keys, each of one type: a record of
  optional fields, \<open>None\<close> for a key that is absent.
\<close>

record filter_set =
  word_count :: "int option"
  is_palindrome :: "bool option"
  min_length :: "int option"
  max_length :: "int option"
  contains_character :: "string option"

definition empty_filters :: filter_set where
  \<comment> \<open>\<open>filters = {}\<close>\<close>
  "empty_filters =
     \<lparr> word_count = None, is_palindrome = None, min_length = None, max_length = None,
       contains_character = None \<rparr>"

subsection \<open>The regular expressions\<close>

text \<open>
  \<open>re.search\<close> tries the pattern at every position from the left and returns the first
  match. A pattern is modelled by its matcher at one position, which returns group 1.
\<close>

fun re_search :: "(string \<Rightarrow> 'a option) \<Rightarrow> string \<Rightarrow> 'a option" where
  "re_search m [] = m []"
| "re_search m (c # cs) = (case m (c # cs) of Some g \<Rightarrow> Some g | None \<Rightarrow> re_search m cs)"

definition match_number :: "string \<Rightarrow> string \<Rightarrow> string option" where
  \<comment> \<open>the pattern \<open>pre(\d+)\<close> for a literal \<open>pre\<close>: the digits are taken greedily.\<close>
  "match_number pre s =
     (if prefix pre s
      then (let ds = takeWhile isdecimal (drop (length pre) s)
            in if ds = [] then None else Some ds)
      else None)"

definition opt_group :: "string \<Rightarrow> (string \<Rightarrow> 'a option) \<Rightarrow> string \<Rightarrow> 'a option" where
  \<comment> \<open>\<open>(?:g)?\<close> before the rest \<open>k\<close> of the pattern: with \<open>g\<close> first, without it on failure.\<close>
  "opt_group g k s =
     (if prefix g s
      then (case k (drop (length g) s) of Some r \<Rightarrow> Some r | None \<Rightarrow> k s)
      else k s)"

definition letter_tail :: "string \<Rightarrow> string option" where
  \<comment> \<open>the end of the letter pattern: a space and \<open>([a-z])\<close>.\<close>
  "letter_tail s =
     (case s of
        sp # c # _ \<Rightarrow> if sp = CHR '' '' \<and> islower_az c then Some [c] else None
      | _ \<Rightarrow> None)"

definition match_letter :: "string \<Rightarrow> string option" where
  \<comment> \<open>\<open>contain(?:ing)?(?: the)?(?: letter)? ([a-z])\<close>\<close>
  "match_letter s =
     (if prefix ''contain'' s
      then opt_group ''ing'' (opt_group '' the'' (opt_group '' letter'' letter_tail))
             (drop (length ''contain'') s)
      else None)"

definition digit_value :: "char \<Rightarrow> int" where
  "digit_value c = int (of_char c) - 48"

definition decimal_value :: "string \<Rightarrow> int" where
  \<comment> \<open>a string of decimal digits read in base ten\<close>
  "decimal_value ds = foldl (\<lambda>a d. 10 * a + digit_value d) 0 ds"

datatype py_error = ValueError

definition int_max_str_digits :: nat where
  \<comment> \<open>\<open>sys.int_info.default_max_str_digits\<close>\<close>
  "int_max_str_digits = 4300"

definition py_int :: "string \<Rightarrow> py_error + int" where
  \<comment> \<open>\<open>int(ds)\<close> on a string of decimal digits. CPython with its default settings raises
      \<open>ValueError\<close> on a string of more than 4300 digits, leading zeros counted.\<close>
  "py_int ds =
     (if int_max_str_digits < length ds then Inl ValueError else Inr (decimal_value ds))"

definition bind_result :: "'e + 'a \<Rightarrow> ('a \<Rightarrow> 'e + 'b) \<Rightarrow> 'e + 'b" where
  \<comment> \<open>one statement after another: an exception raised by the first ends the function.\<close>
  "bind_result r f = (case r of Inl e \<Rightarrow> Inl e | Inr x \<Rightarrow> f x)"

subsection \<open>The parser and the validator\<close>

text \<open>
  The parser calls \<open>int\<close> on the digits of each length pattern that matches, in the order
  of the source; where \<open>int\<close> raises, the parser raises and the statements after it are
  not reached. Its result is the error or the filters.
\<close>

definition parse_natural_language_query :: "string \<Rightarrow> py_error + filter_set" where
  "parse_natural_language_query query =
     (let query_lower = str_lower query;
          filters = empty_filters;
          filters =
            (if str_contains ''single word'' query_lower \<or> str_contains ''one word'' query_lower
             then filters\<lparr>word_count := Some 1\<rparr>
             else if str_contains ''two word'' query_lower \<or> str_contains ''2 word'' query_lower
             then filters\<lparr>word_count := Some 2\<rparr>
             else if str_contains ''three word'' query_lower \<or> str_contains ''3 word'' query_lower
             then filters\<lparr>word_count := Some 3\<rparr>
             else filters);
          filters =
            (if str_contains ''palindrom'' query_lower
             then filters\<lparr>is_palindrome := Some True\<rparr> else filters);
          longer_than = re_search (match_number ''longer than '') query_lower
      in bind_result
           (case longer_than of
              Some g \<Rightarrow> bind_result (py_int g) (\<lambda>n. Inr (filters\<lparr>min_length := Some (n + 1)\<rparr>))
            | None \<Rightarrow> Inr filters)
           (\<lambda>filters.
     let shorter_than = re_search (match_number ''shorter than '') query_lower
      in bind_result
           (case shorter_than of
              Some g \<Rightarrow> bind_result (py_int g) (\<lambda>n. Inr (filters\<lparr>max_length := Some (n - 1)\<rparr>))
            | None \<Rightarrow> Inr filters)
           (\<lambda>filters.
     let at_least = re_search (match_number ''at least '') query_lower
      in bind_result
           (case at_least of
              Some g \<Rightarrow> bind_result (py_int g) (\<lambda>n. Inr (filters\<lparr>min_length := Some n\<rparr>))
            | None \<Rightarrow> Inr filters)
           (\<lambda>filters.
     let at_most = re_search (match_number ''at most '') query_lower
      in bind_result
           (case at_most of
              Some g \<Rightarrow> bind_result (py_int g) (\<lambda>n. Inr (filters\<lparr>max_length := Some n\<rparr>))
            | None \<Rightarrow> Inr filters)
           (\<lambda>filters.
     let letter_match = re_search match_letter query_lower;
         filters =
           (case letter_match of
              Some g \<Rightarrow> filters\<lparr>contains_character := Some g\<rparr>
            | None \<Rightarrow> filters);
         filters =
           (if str_contains ''first vowel'' query_lower
            then filters\<lparr>contains_character := Some ''a''\<rparr> else filters);
         filters =
           (if str_contains ''last vowel'' query_lower
            then filters\<lparr>contains_character := Some ''u''\<rparr> else filters)
      in Inr filters)))))"

definition validate_parsed_filters :: "filter_set \<Rightarrow> string option" where
  "validate_parsed_filters filters =
     (if min_length filters \<noteq> None \<and> max_length filters \<noteq> None
      then (if the (min_length filters) > the (max_length filters)
            then Some ''Conflicting length constraints: min_length cannot be greater than max_length''
            else None)
      else None)"

section \<open>What the specification says, in its own words\<close>

definition spec_cleaned :: "string \<Rightarrow> string" where
  \<comment> \<open>the string with every ASCII space removed and every character in lower case\<close>
  "spec_cleaned s = map lower_char (filter (\<lambda>c. c \<noteq> CHR '' '') s)"

definition str_slice :: "'a list \<Rightarrow> nat \<Rightarrow> nat \<Rightarrow> 'a list" where
  \<comment> \<open>\<open>s[i:j]\<close> for \<open>i \<le> j \<le> len(s)\<close>\<close>
  "str_slice s i j = take (j - i) (drop i s)"

definition maximal_runs :: "string \<Rightarrow> (nat \<times> nat) set" where
  \<comment> \<open>the maximal runs of non-whitespace characters: the slices \<open>s[i:j]\<close> that are not empty,
      hold no whitespace, and have the start of the string or a whitespace before them and
      the end of the string or a whitespace after them.\<close>
  "maximal_runs s =
     {(i, j). i < j \<and> j \<le> length s
        \<and> list_all (\<lambda>c. \<not> isspace c) (str_slice s i j)
        \<and> (i = 0 \<or> isspace (s ! (i - 1)))
        \<and> (j = length s \<or> isspace (s ! j))}"

definition numeral_fits :: "string \<Rightarrow> string \<Rightarrow> bool" where
  \<comment> \<open>where the number pattern after \<open>pre\<close> matches, its digits are few enough for \<open>int\<close>.\<close>
  "numeral_fits pre s =
     (case re_search (match_number pre) s of
        None \<Rightarrow> True
      | Some g \<Rightarrow> length g \<le> int_max_str_digits)"

definition numerals_fit :: "string \<Rightarrow> bool" where
  \<comment> \<open>no numeral that the parser reads has more than 4300 digits.\<close>
  "numerals_fit s =
     (numeral_fits ''longer than '' s \<and> numeral_fits ''shorter than '' s
      \<and> numeral_fits ''at least '' s \<and> numeral_fits ''at most '' s)"

section \<open>Properties\<close>

subsection \<open>The fields of the analysis\<close>

lemma res_length_analyze: "res_length (analyze_string v) = int (length v)"
  by (simp add: analyze_string_def Let_def)

lemma res_is_palindrome_analyze:
  "res_is_palindrome (analyze_string v) =
     (str_lower (str_replace '' '' '''' v) = rev (str_lower (str_replace '' '' '''' v)))"
  by (simp add: analyze_string_def Let_def)

lemma res_unique_characters_analyze:
  "res_unique_characters (analyze_string v) = int (card (set v))"
  by (simp add: analyze_string_def Let_def)

lemma res_word_count_analyze:
  "res_word_count (analyze_string v) = int (length (str_split v))"
  by (simp add: analyze_string_def Let_def)

lemma res_sha256_hash_analyze:
  "res_sha256_hash (analyze_string v) = hexdigest (sha256 (str_encode v))"
  by (simp add: analyze_string_def Let_def)

lemma res_character_frequency_map_analyze:
  "res_character_frequency_map (analyze_string v) = character_frequency_loop [] v"
  by (simp add: analyze_string_def Let_def)

subsection \<open>Palindromes\<close>

text \<open>Replacing the one-character string of a space by the empty string drops the spaces.\<close>

lemma str_replace_space: "str_replace '' '' '''' s = filter (\<lambda>c. c \<noteq> CHR '' '') s"
proof (induction s)
  case Nil
  show ?case by (simp add: str_replace.simps [of "'' ''" "''''" "[]"])
next
  case (Cons c cs)
  then show ?case
    by (simp add: str_replace.simps [of "'' ''" "''''" "c # cs"])
qed

text \<open>
  C1. For every string, \<open>is_palindrome\<close> holds exactly when the string without its ASCII
  spaces and in lower case equals its own reverse. It holds for \<open>racecar\<close> and for
  \<open>Race Car\<close>, and not for \<open>race.car\<close>: the full stop stays.
\<close>

theorem is_palindrome_iff_cleaned:
  "res_is_palindrome (analyze_string s) = (spec_cleaned s = rev (spec_cleaned s))
   \<and> res_is_palindrome (analyze_string ''racecar'')
   \<and> res_is_palindrome (analyze_string ''Race Car'')
   \<and> \<not> res_is_palindrome (analyze_string ''race.car'')"
proof -
  have g: "res_is_palindrome (analyze_string v) = (spec_cleaned v = rev (spec_cleaned v))" for v
    by (simp add: res_is_palindrome_analyze str_replace_space spec_cleaned_def str_lower_def)
  have "spec_cleaned ''racecar'' = ''racecar''" by code_simp
  moreover have "spec_cleaned ''Race Car'' = ''racecar''" by code_simp
  moreover have "spec_cleaned ''race.car'' = ''race.car''" by code_simp
  ultimately show ?thesis by (simp add: g)
qed

subsection \<open>Length and distinct characters\<close>

text \<open>
  C8. \<open>length\<close> is the number of characters of the string as given, and
  \<open>unique_characters\<close> is the number of distinct characters of the string as given: a
  capital and its small letter are two characters, and the space is one.
\<close>

theorem length_and_unique_characters_raw:
  "res_length (analyze_string s) = int (length s)
   \<and> res_unique_characters (analyze_string s) = int (card (set s))
   \<and> res_length (analyze_string ''A a'') = 3
   \<and> res_unique_characters (analyze_string ''aA a'') = 3"
proof -
  have "card (set ''aA a'') = 3" by code_simp
  then show ?thesis by (simp add: res_length_analyze res_unique_characters_analyze)
qed

subsection \<open>Conflicting filters\<close>

text \<open>
  C3. The validator reports a conflict exactly when \<open>min_length\<close> and \<open>max_length\<close> are
  both present and \<open>min_length\<close> is the greater; the other fields play no part. It reports
  one for \<open>min_length = 20, max_length = 5\<close> and none for \<open>min_length = 5, max_length = 20\<close>.
\<close>

theorem validate_parsed_filters_conflict_iff:
  "(validate_parsed_filters f \<noteq> None) =
     (\<exists>mn mx. min_length f = Some mn \<and> max_length f = Some mx \<and> mn > mx)
   \<and> validate_parsed_filters (empty_filters\<lparr>min_length := Some 20, max_length := Some 5\<rparr>) \<noteq> None
   \<and> validate_parsed_filters (empty_filters\<lparr>min_length := Some 5, max_length := Some 20\<rparr>) = None"
  by (auto simp: validate_parsed_filters_def empty_filters_def)

subsection \<open>The character frequency map\<close>

lemma dict_get_update:
  "dict_get (AList.update k v m) c d = (if c = k then v else dict_get m c d)"
  by (simp add: dict_get_def update_conv')

lemma sum_list_values_update:
  fixes m :: "('k \<times> int) list"
  shows "sum_list (map snd (AList.update k v m)) = sum_list (map snd m) - dict_get m k 0 + v"
  by (induction m) (auto simp: dict_get_def)

text \<open>The loop from any dictionary \<open>m\<close>: each character read adds one to the values.\<close>

lemma loop_sum:
  "sum_list (map snd (character_frequency_loop m s)) = sum_list (map snd m) + int (length s)"
  by (induction s arbitrary: m) (simp_all add: sum_list_values_update)

lemma loop_keys:
  "fst ` set (character_frequency_loop m s) = fst ` set m \<union> set s"
  by (induction s arbitrary: m) (auto simp: dom_update)

lemma loop_distinct:
  "distinct (map fst m) \<Longrightarrow> distinct (map fst (character_frequency_loop m s))"
  by (induction s arbitrary: m) (simp_all add: distinct_update)

lemma loop_map_of:
  "map_of (character_frequency_loop m s) c =
     (if c \<in> set s \<or> map_of m c \<noteq> None
      then Some (dict_get m c 0 + int (count_list s c)) else None)"
proof (induction s arbitrary: m)
  case Nil
  show ?case by (auto simp: dict_get_def)
next
  case (Cons x xs)
  show ?case
    by (simp add: Cons.IH dict_get_update update_conv')
qed

text \<open>
  C4. The values of \<open>character_frequency_map\<close> add up to the length of the string; the
  map has one entry for each distinct character of the string and no other, and the value
  at a character is the number of its occurrences in the string.
\<close>

theorem character_frequency_map_counts:
  "sum_list (dict_values (res_character_frequency_map (analyze_string s))) = int (length s)
   \<and> distinct (dict_keys (res_character_frequency_map (analyze_string s)))
   \<and> set (dict_keys (res_character_frequency_map (analyze_string s))) = set s
   \<and> map_of (res_character_frequency_map (analyze_string s)) c =
       (if c \<in> set s then Some (int (count_list s c)) else None)"
  by (simp add: res_character_frequency_map_analyze dict_values_def dict_keys_def
      loop_sum loop_keys loop_distinct loop_map_of dict_get_def)

text \<open>
  C10. \<open>unique_characters\<close>, computed from the set of the characters, is the number of keys
  of \<open>character_frequency_map\<close>, computed by the loop.
\<close>

theorem unique_characters_eq_frequency_keys:
  "res_unique_characters (analyze_string s) =
     int (length (dict_keys (res_character_frequency_map (analyze_string s))))"
proof -
  let ?m = "character_frequency_loop [] s"
  have "distinct (map fst ?m)" by (simp add: loop_distinct)
  then have "card (set (map fst ?m)) = length (map fst ?m)"
    by (rule distinct_card)
  moreover have "set (map fst ?m) = set s" by (simp add: loop_keys)
  ultimately have "card (set s) = length (map fst ?m)" by simp
  then show ?thesis
    by (simp add: res_unique_characters_analyze res_character_frequency_map_analyze dict_keys_def)
qed

subsection \<open>Words\<close>

text \<open>
  A run is given by its two ends. The runs of \<open>c # cs\<close> are those of \<open>cs\<close> moved by one
  place, but for the run that \<open>c\<close> begins or lengthens; so their number grows by one exactly
  when \<open>c\<close> is the last character of a word, and the number of words that \<open>split\<close> returns
  grows in the same way.
\<close>

lemma slice_all_iff:
  assumes "i < j" "j \<le> length s"
  shows "list_all P (str_slice s i j) \<longleftrightarrow> (\<forall>k. i \<le> k \<and> k < j \<longrightarrow> P (s ! k))"
proof -
  have len: "length (str_slice s i j) = j - i" using assms by (simp add: str_slice_def)
  have nth: "str_slice s i j ! n = s ! (i + n)" if "n < j - i" for n
    using that assms by (simp add: str_slice_def)
  show ?thesis
  proof
    assume a: "list_all P (str_slice s i j)"
    show "\<forall>k. i \<le> k \<and> k < j \<longrightarrow> P (s ! k)"
    proof (intro allI impI)
      fix k assume k: "i \<le> k \<and> k < j"
      then have lt: "k - i < j - i" by arith
      with a len have "P (str_slice s i j ! (k - i))"
        by (simp add: list_all_length)
      moreover have "i + (k - i) = k" using k by simp
      ultimately show "P (s ! k)" using nth [OF lt] by simp
    qed
  next
    assume a: "\<forall>k. i \<le> k \<and> k < j \<longrightarrow> P (s ! k)"
    show "list_all P (str_slice s i j)"
      unfolding list_all_length
    proof (intro allI impI)
      fix n assume "n < length (str_slice s i j)"
      then have n: "n < j - i" using len by simp
      then have "P (s ! (i + n))" using a by simp
      with nth [OF n] show "P (str_slice s i j ! n)" by simp
    qed
  qed
qed

lemma mr_iff:
  "(i, j) \<in> maximal_runs s \<longleftrightarrow>
     i < j \<and> j \<le> length s \<and> (\<forall>k. i \<le> k \<and> k < j \<longrightarrow> \<not> isspace (s ! k))
     \<and> (i = 0 \<or> isspace (s ! (i - 1))) \<and> (j = length s \<or> isspace (s ! j))"
  using slice_all_iff [of i j s "\<lambda>c. \<not> isspace c"] by (auto simp: maximal_runs_def)

lemma finite_maximal_runs: "finite (maximal_runs s)"
proof (rule finite_subset)
  show "maximal_runs s \<subseteq> {..length s} \<times> {..length s}"
    by (auto simp: maximal_runs_def)
qed simp

lemma maximal_runs_Nil: "maximal_runs [] = {}"
  by (auto simp: maximal_runs_def)


lemma all_shift:
  "(\<forall>k. Suc i \<le> k \<and> k < Suc j \<longrightarrow> \<not> isspace ((c # cs) ! k)) \<longleftrightarrow> (\<forall>k. i \<le> k \<and> k < j \<longrightarrow> \<not> isspace (cs ! k))"
proof
  assume a: "\<forall>k. Suc i \<le> k \<and> k < Suc j \<longrightarrow> \<not> isspace ((c # cs) ! k)"
  show "\<forall>k. i \<le> k \<and> k < j \<longrightarrow> \<not> isspace (cs ! k)"
  proof (intro allI impI)
    fix k assume "i \<le> k \<and> k < j"
    then have "Suc i \<le> Suc k \<and> Suc k < Suc j" by simp
    with a have "\<not> isspace ((c # cs) ! Suc k)" by blast
    then show "\<not> isspace (cs ! k)" by simp
  qed
next
  assume a: "\<forall>k. i \<le> k \<and> k < j \<longrightarrow> \<not> isspace (cs ! k)"
  show "\<forall>k. Suc i \<le> k \<and> k < Suc j \<longrightarrow> \<not> isspace ((c # cs) ! k)"
  proof (intro allI impI)
    fix k assume k: "Suc i \<le> k \<and> k < Suc j"
    then obtain k' where k': "k = Suc k'" by (cases k) auto
    with k have "i \<le> k' \<and> k' < j" by simp
    with a have "\<not> isspace (cs ! k')" by blast
    then show "\<not> isspace ((c # cs) ! k)" by (simp add: k')
  qed
qed

lemma all_shift0:
  "(\<forall>k. 0 \<le> k \<and> k < Suc j \<longrightarrow> \<not> isspace ((c # cs) ! k)) \<longleftrightarrow> \<not> isspace c \<and> (\<forall>k. 0 \<le> k \<and> k < j \<longrightarrow> \<not> isspace (cs ! k))"
proof
  assume a: "\<forall>k. 0 \<le> k \<and> k < Suc j \<longrightarrow> \<not> isspace ((c # cs) ! k)"
  then have "\<not> isspace ((c # cs) ! 0)" by blast
  moreover have "\<forall>k. 0 \<le> k \<and> k < j \<longrightarrow> \<not> isspace (cs ! k)"
  proof (intro allI impI)
    fix k assume "0 \<le> k \<and> k < j"
    then have "0 \<le> Suc k \<and> Suc k < Suc j" by simp
    with a have "\<not> isspace ((c # cs) ! Suc k)" by blast
    then show "\<not> isspace (cs ! k)" by simp
  qed
  ultimately show "\<not> isspace c \<and> (\<forall>k. 0 \<le> k \<and> k < j \<longrightarrow> \<not> isspace (cs ! k))" by simp
next
  assume a: "\<not> isspace c \<and> (\<forall>k. 0 \<le> k \<and> k < j \<longrightarrow> \<not> isspace (cs ! k))"
  show "\<forall>k. 0 \<le> k \<and> k < Suc j \<longrightarrow> \<not> isspace ((c # cs) ! k)"
  proof (intro allI impI)
    fix k assume k: "0 \<le> k \<and> k < Suc j"
    show "\<not> isspace ((c # cs) ! k)"
    proof (cases k)
      case 0
      then show ?thesis using a by simp
    next
      case (Suc k')
      with k have "0 \<le> k' \<and> k' < j" by simp
      with a have "\<not> isspace (cs ! k')" by blast
      then show ?thesis by (simp add: Suc)
    qed
  qed
qed

lemma mr_no_empty: "(i, 0) \<notin> maximal_runs s"
  by (simp add: mr_iff)

lemma mr_zero_start: "(0, j) \<in> maximal_runs cs \<Longrightarrow> cs \<noteq> [] \<and> \<not> isspace (hd cs)"
proof -
  assume m: "(0, j) \<in> maximal_runs cs"
  then have j: "0 < j" "j \<le> length cs" and a: "\<forall>k. 0 \<le> k \<and> k < j \<longrightarrow> \<not> isspace (cs ! k)"
    by (simp_all add: mr_iff)
  from j have ne: "cs \<noteq> []" by auto
  from a j have "\<not> isspace (cs ! 0)" by blast
  with ne show ?thesis by (simp add: hd_conv_nth)
qed

lemma mr_Suc_Suc:
  "(Suc i, Suc j) \<in> maximal_runs (c # cs) \<longleftrightarrow>
     (if i = 0 then isspace c \<and> (0, j) \<in> maximal_runs cs else (i, j) \<in> maximal_runs cs)"
proof (cases i)
  case 0
  have "(Suc 0, Suc j) \<in> maximal_runs (c # cs) \<longleftrightarrow> isspace c \<and> (0, j) \<in> maximal_runs cs"
    by (simp only: mr_iff all_shift) auto
  then show ?thesis by (simp add: 0)
next
  case (Suc i')
  have "(Suc (Suc i'), Suc j) \<in> maximal_runs (c # cs) \<longleftrightarrow> (Suc i', j) \<in> maximal_runs cs"
    by (simp only: mr_iff all_shift) auto
  then show ?thesis by (simp add: Suc)
qed

lemma mr_0_Suc:
  "(0, Suc j) \<in> maximal_runs (c # cs) \<longleftrightarrow>
     \<not> isspace c \<and> (j = 0 \<and> (cs = [] \<or> isspace (hd cs)) \<or> (0, j) \<in> maximal_runs cs)"
proof (cases j)
  case 0
  show ?thesis
    unfolding 0 mr_iff by (cases cs) auto
next
  case (Suc j')
  have "(0, Suc (Suc j')) \<in> maximal_runs (c # cs) \<longleftrightarrow> \<not> isspace c \<and> (0, Suc j') \<in> maximal_runs cs"
    by (simp only: mr_iff all_shift0) auto
  then show ?thesis by (simp add: Suc)
qed


lemma mr_Cons_cases:
  assumes "(i, j) \<in> maximal_runs (c # cs)"
  obtains (first) j' where "i = 0" "j = Suc j'" "\<not> isspace c"
      "j' = 0 \<and> (cs = [] \<or> isspace (hd cs)) \<or> (0, j') \<in> maximal_runs cs"
    | (second) j' where "i = Suc 0" "j = Suc j'" "isspace c" "(0, j') \<in> maximal_runs cs"
    | (later) i' j' where "i = Suc i'" "j = Suc j'" "i' \<noteq> 0" "(i', j') \<in> maximal_runs cs"
proof -
  obtain j' where j: "j = Suc j'"
    using assms mr_no_empty [of i "c # cs"] by (cases j) auto
  show thesis
  proof (cases i)
    case 0
    with assms j have "(0, Suc j') \<in> maximal_runs (c # cs)" by simp
    then have "\<not> isspace c"
      "j' = 0 \<and> (cs = [] \<or> isspace (hd cs)) \<or> (0, j') \<in> maximal_runs cs"
      by (simp_all add: mr_0_Suc)
    with 0 j show thesis by (rule first)
  next
    case (Suc i')
    with assms j have m: "(Suc i', Suc j') \<in> maximal_runs (c # cs)" by simp
    show thesis
    proof (cases "i' = 0")
      case True
      with m have "isspace c" "(0, j') \<in> maximal_runs cs" by (simp_all add: mr_Suc_Suc)
      with Suc True j show thesis by (auto intro: second)
    next
      case False
      with m have "(i', j') \<in> maximal_runs cs" by (simp add: mr_Suc_Suc)
      with Suc False j show thesis by (auto intro: later)
    qed
  qed
qed

lemma mr_space:
  assumes "isspace c"
  shows "maximal_runs (c # cs) = (\<lambda>(i, j). (Suc i, Suc j)) ` maximal_runs cs"
proof (rule set_eqI)
  fix p :: "nat \<times> nat"
  obtain i j where p: "p = (i, j)" by (cases p)
  show "p \<in> maximal_runs (c # cs) \<longleftrightarrow> p \<in> (\<lambda>(i, j). (Suc i, Suc j)) ` maximal_runs cs"
  proof
    assume "p \<in> maximal_runs (c # cs)"
    then have "(i, j) \<in> maximal_runs (c # cs)" by (simp add: p)
    then have "\<exists>i' j'. i = Suc i' \<and> j = Suc j' \<and> (i', j') \<in> maximal_runs cs"
      using assms by (cases rule: mr_Cons_cases) auto
    then show "p \<in> (\<lambda>(i, j). (Suc i, Suc j)) ` maximal_runs cs"
      unfolding p by force
  next
    assume "p \<in> (\<lambda>(i, j). (Suc i, Suc j)) ` maximal_runs cs"
    then obtain i' j' where ij: "i = Suc i'" "j = Suc j'" and m: "(i', j') \<in> maximal_runs cs"
      unfolding p by auto
    have "(Suc i', Suc j') \<in> maximal_runs (c # cs)"
      using m assms by (cases "i' = 0") (simp_all add: mr_Suc_Suc)
    then show "p \<in> maximal_runs (c # cs)" by (simp add: p ij)
  qed
qed

lemma mr_last_char:
  assumes "\<not> isspace c" "cs = [] \<or> isspace (hd cs)"
  shows "maximal_runs (c # cs) = insert (0, Suc 0) ((\<lambda>(i, j). (Suc i, Suc j)) ` maximal_runs cs)"
proof (rule set_eqI)
  fix p :: "nat \<times> nat"
  obtain i j where p: "p = (i, j)" by (cases p)
  have no0: "(0, j') \<notin> maximal_runs cs" for j'
    using assms(2) mr_zero_start [of j' cs] by blast
  show "p \<in> maximal_runs (c # cs) \<longleftrightarrow>
        p \<in> insert (0, Suc 0) ((\<lambda>(i, j). (Suc i, Suc j)) ` maximal_runs cs)"
  proof
    assume "p \<in> maximal_runs (c # cs)"
    then have "(i, j) \<in> maximal_runs (c # cs)" by (simp add: p)
    then have "(i = 0 \<and> j = Suc 0) \<or> (\<exists>i' j'. i = Suc i' \<and> j = Suc j' \<and> (i', j') \<in> maximal_runs cs)"
      using assms(1) no0 by (cases rule: mr_Cons_cases) auto
    then show "p \<in> insert (0, Suc 0) ((\<lambda>(i, j). (Suc i, Suc j)) ` maximal_runs cs)"
      unfolding p by force
  next
    assume "p \<in> insert (0, Suc 0) ((\<lambda>(i, j). (Suc i, Suc j)) ` maximal_runs cs)"
    then consider "i = 0" "j = Suc 0"
      | i' j' where "i = Suc i'" "j = Suc j'" "(i', j') \<in> maximal_runs cs"
      unfolding p by auto
    then show "p \<in> maximal_runs (c # cs)"
    proof cases
      case 1
      have "(0, Suc 0) \<in> maximal_runs (c # cs)"
        using assms by (simp add: mr_0_Suc)
      with 1 show ?thesis by (simp add: p)
    next
      case 2
      have "i' \<noteq> 0"
      proof
        assume "i' = 0"
        with 2 have "(0, j') \<in> maximal_runs cs" by simp
        with no0 show False by simp
      qed
      with 2 have "(Suc i', Suc j') \<in> maximal_runs (c # cs)" by (simp add: mr_Suc_Suc)
      with 2 show ?thesis by (simp add: p)
    qed
  qed
qed

lemma mr_inner_char:
  assumes "\<not> isspace c" "cs \<noteq> []" "\<not> isspace (hd cs)"
  shows "maximal_runs (c # cs) =
           (\<lambda>(i, j). (if i = 0 then 0 else Suc i, Suc j)) ` maximal_runs cs"
proof (rule set_eqI)
  fix p :: "nat \<times> nat"
  obtain i j where p: "p = (i, j)" by (cases p)
  show "p \<in> maximal_runs (c # cs) \<longleftrightarrow>
        p \<in> (\<lambda>(i, j). (if i = 0 then 0 else Suc i, Suc j)) ` maximal_runs cs"
  proof
    assume "p \<in> maximal_runs (c # cs)"
    then have "(i, j) \<in> maximal_runs (c # cs)" by (simp add: p)
    then have "\<exists>i' j'. i = (if i' = 0 then 0 else Suc i') \<and> j = Suc j' \<and> (i', j') \<in> maximal_runs cs"
    proof (cases rule: mr_Cons_cases)
      case (first j')
      with assms have "(0, j') \<in> maximal_runs cs" by auto
      with first show ?thesis by (intro exI [of _ 0] exI [of _ j']) simp
    next
      case (second j')
      with assms show ?thesis by simp
    next
      case (later i' j')
      then show ?thesis by (intro exI [of _ i'] exI [of _ j']) simp
    qed
    then show "p \<in> (\<lambda>(i, j). (if i = 0 then 0 else Suc i, Suc j)) ` maximal_runs cs"
      unfolding p by force
  next
    assume "p \<in> (\<lambda>(i, j). (if i = 0 then 0 else Suc i, Suc j)) ` maximal_runs cs"
    then obtain i' j' where ij: "i = (if i' = 0 then 0 else Suc i')" "j = Suc j'"
      and m: "(i', j') \<in> maximal_runs cs"
      unfolding p by auto
    show "p \<in> maximal_runs (c # cs)"
    proof (cases "i' = 0")
      case True
      with m assms have "(0, Suc j') \<in> maximal_runs (c # cs)" by (simp add: mr_0_Suc)
      with True ij show ?thesis by (simp add: p)
    next
      case False
      with m have "(Suc i', Suc j') \<in> maximal_runs (c # cs)" by (simp add: mr_Suc_Suc)
      with False ij show ?thesis by (simp add: p)
    qed
  qed
qed

lemma card_maximal_runs_Cons:
  "card (maximal_runs (c # cs)) =
     (if \<not> isspace c \<and> (cs = [] \<or> isspace (hd cs))
      then Suc (card (maximal_runs cs)) else card (maximal_runs cs))"
proof -
  have inj1: "inj_on (\<lambda>(i, j). (Suc i, Suc j)) A" for A :: "(nat \<times> nat) set"
    by (auto simp: inj_on_def)
  have inj2: "inj_on (\<lambda>(i, j). (if i = 0 then 0 else Suc i, Suc j)) A" for A :: "(nat \<times> nat) set"
    by (auto simp: inj_on_def split: if_splits)
  consider "isspace c" | "\<not> isspace c" "cs = [] \<or> isspace (hd cs)"
    | "\<not> isspace c" "cs \<noteq> []" "\<not> isspace (hd cs)" by blast
  then show ?thesis
  proof cases
    case 1
    then show ?thesis by (simp add: mr_space card_image inj1)
  next
    case 2
    have "(0, Suc 0) \<notin> (\<lambda>(i, j). (Suc i, Suc j)) ` maximal_runs cs" by auto
    then show ?thesis
      using 2 by (simp add: mr_last_char card_image inj1 finite_maximal_runs)
  next
    case 3
    then show ?thesis by (simp add: mr_inner_char card_image inj2)
  qed
qed

lemma str_split_Cons:
  "length (str_split (c # cs)) =
     (if \<not> isspace c \<and> (cs = [] \<or> isspace (hd cs))
      then Suc (length (str_split cs)) else length (str_split cs))"
proof (cases "isspace c")
  case True
  then show ?thesis
    by (simp add: str_split.simps [of "c # cs"] str_split.simps [of cs])
next
  case False
  then have l: "length (str_split (c # cs)) = Suc (length (str_split (dropWhile (\<lambda>c. \<not> isspace c) cs)))"
    by (simp add: str_split.simps [of "c # cs"])
  show ?thesis
  proof (cases "cs = [] \<or> isspace (hd cs)")
    case True
    then have "dropWhile (\<lambda>c. \<not> isspace c) cs = cs" by (cases cs) auto
    with l False True show ?thesis by simp
  next
    case F: False
    then obtain d ds where cs: "cs = d # ds" and d: "\<not> isspace d" by (cases cs) auto
    have "length (str_split cs) = Suc (length (str_split (dropWhile (\<lambda>c. \<not> isspace c) cs)))"
      using d by (simp add: cs str_split.simps [of "d # ds"])
    with l False F show ?thesis by simp
  qed
qed

lemma length_str_split: "length (str_split s) = card (maximal_runs s)"
proof (induction s)
  case Nil
  show ?case by (simp add: str_split.simps [of "[]"] maximal_runs_Nil)
next
  case (Cons c cs)
  then show ?case by (simp only: str_split_Cons card_maximal_runs_Cons)
qed

text \<open>
  C7. \<open>word_count\<close> is the number of maximal runs of non-whitespace characters of the
  string, whatever the whitespace between and around them: 2 for \<open>hello world\<close>, 0 for the
  empty string and for three spaces; a tab and a line feed separate words as a space does.
\<close>

theorem word_count_maximal_runs:
  "res_word_count (analyze_string s) = int (card (maximal_runs s))
   \<and> res_word_count (analyze_string ''hello world'') = 2
   \<and> res_word_count (analyze_string '''') = 0
   \<and> res_word_count (analyze_string ''   '') = 0
   \<and> res_word_count (analyze_string [CHR ''a'', CHR 0x09, CHR ''b'', CHR 0x0A, CHR '' '', CHR ''c'']) = 3"
proof -
  have "length (str_split ''hello world'') = 2" by code_simp
  moreover have "length (str_split '''') = 0" by code_simp
  moreover have "length (str_split ''   '') = 0" by code_simp
  moreover have
    "length (str_split [CHR ''a'', CHR 0x09, CHR ''b'', CHR 0x0A, CHR '' '', CHR ''c'']) = 3"
    by code_simp
  ultimately show ?thesis
    by (simp add: res_word_count_analyze length_str_split)
qed

subsection \<open>Substrings and searches\<close>

text \<open>\<open>sub in s\<close> holds exactly when \<open>s\<close> is some string, then \<open>sub\<close>, then some string.\<close>

lemma str_contains_sublist: "str_contains sub s = sublist sub s"
  by (induction s) (simp_all add: sublist_Cons_right)

lemma str_contains_iff: "str_contains sub s \<longleftrightarrow> (\<exists>a b. s = a @ sub @ b)"
  by (simp add: str_contains_sublist sublist_def)

text \<open>
  A search fails exactly when the pattern matches at no position, and a search that
  succeeds returns the match at the leftmost position where the pattern matches.
\<close>

lemma re_search_None_iff:
  "re_search m s = None \<longleftrightarrow> (\<forall>a b. s = a @ b \<longrightarrow> m b = None)"
proof (induction s)
  case Nil
  show ?case by simp
next
  case (Cons c cs)
  show ?case
  proof (cases "m (c # cs)")
    case None
    have "(\<forall>a b. c # cs = a @ b \<longrightarrow> m b = None) \<longleftrightarrow> (\<forall>a b. cs = a @ b \<longrightarrow> m b = None)"
    proof
      assume h: "\<forall>a b. c # cs = a @ b \<longrightarrow> m b = None"
      show "\<forall>a b. cs = a @ b \<longrightarrow> m b = None"
      proof (intro allI impI)
        fix a b assume "cs = a @ b"
        then have "c # cs = (c # a) @ b" by simp
        with h show "m b = None" by blast
      qed
    next
      assume h: "\<forall>a b. cs = a @ b \<longrightarrow> m b = None"
      show "\<forall>a b. c # cs = a @ b \<longrightarrow> m b = None"
      proof (intro allI impI)
        fix a b assume e: "c # cs = a @ b"
        show "m b = None"
        proof (cases a)
          case Nil
          with e None show ?thesis by simp
        next
          case (Cons x xs)
          with e have "cs = xs @ b" by simp
          with h show ?thesis by blast
        qed
      qed
    qed
    with None Cons.IH show ?thesis by simp
  next
    case (Some g)
    have "c # cs = [] @ (c # cs)" by simp
    with Some have "\<not> (\<forall>a b. c # cs = a @ b \<longrightarrow> m b = None)"
      by (metis option.distinct(1))
    with Some show ?thesis by simp
  qed
qed

lemma re_search_leftmost:
  "re_search m s = Some g \<Longrightarrow>
     \<exists>a b. s = a @ b \<and> m b = Some g \<and> (\<forall>a' b'. s = a' @ b' \<and> length a' < length a \<longrightarrow> m b' = None)"
proof (induction s)
  case Nil
  then have "m [] = Some g" by simp
  then show ?case by (intro exI [of _ "[]"]) simp
next
  case (Cons c cs)
  show ?case
  proof (cases "m (c # cs)")
    case (Some g')
    with Cons.prems have "m (c # cs) = Some g" by simp
    then show ?thesis by (intro exI [of _ "[]"] exI [of _ "c # cs"]) simp
  next
    case None
    with Cons.prems have "re_search m cs = Some g" by simp
    from Cons.IH [OF this] obtain a b where ab: "cs = a @ b" "m b = Some g"
      and l: "\<forall>a' b'. cs = a' @ b' \<and> length a' < length a \<longrightarrow> m b' = None" by blast
    have "\<forall>a' b'. c # cs = a' @ b' \<and> length a' < length (c # a) \<longrightarrow> m b' = None"
    proof (intro allI impI)
      fix a' b' assume h: "c # cs = a' @ b' \<and> length a' < length (c # a)"
      show "m b' = None"
      proof (cases a')
        case Nil
        with h None show ?thesis by simp
      next
        case (Cons x xs)
        with h have "cs = xs @ b' \<and> length xs < length a" by simp
        with l show ?thesis by blast
      qed
    qed
    with ab show ?thesis
      by (intro exI [of _ "c # a"] exI [of _ b]) simp
  qed
qed

text \<open>
  The number pattern matches at a position exactly when the literal stands there with at
  least one digit after it; the group is the whole run of digits.
\<close>

lemma match_number_Some_iff:
  "match_number pre b = Some g \<longleftrightarrow>
     (\<exists>r. b = pre @ g @ r \<and> g \<noteq> [] \<and> list_all isdecimal g \<and> (r = [] \<or> \<not> isdecimal (hd r)))"
proof
  assume m: "match_number pre b = Some g"
  have p: "prefix pre b"
  proof (rule ccontr)
    assume "\<not> prefix pre b"
    then have "match_number pre b = None" by (simp add: match_number_def)
    with m show False by simp
  qed
  then obtain t where t: "b = pre @ t" by (auto simp: prefix_def)
  have mt: "match_number pre b =
      (if takeWhile isdecimal t = [] then None else Some (takeWhile isdecimal t))"
    by (simp add: match_number_def t)
  have ne: "takeWhile isdecimal t \<noteq> []"
  proof
    assume "takeWhile isdecimal t = []"
    with mt m show False by simp
  qed
  with mt m have g: "takeWhile isdecimal t = g" by simp
  have r: "dropWhile isdecimal t = [] \<or> \<not> isdecimal (hd (dropWhile isdecimal t))"
    using hd_dropWhile [of isdecimal t] by (cases "dropWhile isdecimal t = []") simp_all
  have "t = g @ dropWhile isdecimal t" using g takeWhile_dropWhile_id [of isdecimal t] by simp
  then have 1: "b = pre @ g @ dropWhile isdecimal t" using t by simp
  have 2: "g \<noteq> []" using ne g by simp
  have "set (takeWhile isdecimal t) \<subseteq> {c. isdecimal c}"
    by (auto dest: set_takeWhileD)
  then have 3: "list_all isdecimal g" using g by (auto simp: list_all_iff)
  from 1 2 3 r show "\<exists>r. b = pre @ g @ r \<and> g \<noteq> [] \<and> list_all isdecimal g \<and> (r = [] \<or> \<not> isdecimal (hd r))"
    by (intro exI [of _ "dropWhile isdecimal t"]) simp
next
  assume "\<exists>r. b = pre @ g @ r \<and> g \<noteq> [] \<and> list_all isdecimal g \<and> (r = [] \<or> \<not> isdecimal (hd r))"
  then obtain r where b: "b = pre @ g @ r" and g: "g \<noteq> []" "list_all isdecimal g"
    and r: "r = [] \<or> \<not> isdecimal (hd r)" by blast
  have tw: "takeWhile isdecimal (g @ r) = g"
  proof (cases r)
    case Nil
    with g show ?thesis by (simp add: list_all_iff)
  next
    case (Cons x xs)
    with r have "\<not> isdecimal x" by simp
    with g Cons show ?thesis by (simp add: list_all_iff takeWhile_append2)
  qed
  show "match_number pre b = Some g"
    using g(1) by (simp add: match_number_def b tw)
qed

text \<open>
  The digits are read in base ten and the result is not negative; \<open>int\<close> returns it for
  at most 4300 digits and raises for more.
\<close>

lemma decimal_value_snoc: "decimal_value (ds @ [d]) = 10 * decimal_value ds + digit_value d"
  by (simp add: decimal_value_def)

lemma decimal_value_nonneg: "list_all isdecimal ds \<Longrightarrow> 0 \<le> decimal_value ds"
proof (induction ds rule: rev_induct)
  case Nil
  show ?case by (simp add: decimal_value_def)
next
  case (snoc d ds)
  then have "0 \<le> decimal_value ds" "isdecimal d" by simp_all
  moreover from \<open>isdecimal d\<close> have "0 \<le> digit_value d"
    by (simp add: isdecimal_def digit_value_def Let_def)
  ultimately show ?case by (simp add: decimal_value_snoc)
qed

lemma py_int_returns_iff:
  "py_int ds = Inr n \<longleftrightarrow> length ds \<le> int_max_str_digits \<and> n = decimal_value ds"
  by (auto simp: py_int_def)

lemma py_int_raises_iff: "py_int ds = Inl ValueError \<longleftrightarrow> int_max_str_digits < length ds"
  by (simp add: py_int_def)

subsection \<open>The outcome of the parser\<close>

text \<open>
  The body of the parser over any outcome of its tests \<open>b1\<close>, \<open>b2\<close>, \<open>b3\<close>, \<open>p\<close>, \<open>fv\<close>,
  \<open>lv\<close> and of its searches \<open>r1\<close> to \<open>r5\<close>: it raises when one of the four numerals is
  too long for \<open>int\<close>, and otherwise returns the filters written out field by field.
\<close>

lemma parse_body:
  "(let filters = empty_filters;
        filters =
          (if b1 then filters\<lparr>word_count := Some 1\<rparr>
           else if b2 then filters\<lparr>word_count := Some 2\<rparr>
           else if b3 then filters\<lparr>word_count := Some 3\<rparr>
           else filters);
        filters = (if p then filters\<lparr>is_palindrome := Some True\<rparr> else filters)
    in bind_result
         (case r1 of
            Some g \<Rightarrow> bind_result (py_int g) (\<lambda>n. Inr (filters\<lparr>min_length := Some (n + 1)\<rparr>))
          | None \<Rightarrow> Inr filters)
         (\<lambda>filters.
            bind_result
              (case r2 of
                 Some g \<Rightarrow> bind_result (py_int g) (\<lambda>n. Inr (filters\<lparr>max_length := Some (n - 1)\<rparr>))
               | None \<Rightarrow> Inr filters)
              (\<lambda>filters.
                 bind_result
                   (case r3 of
                      Some g \<Rightarrow> bind_result (py_int g) (\<lambda>n. Inr (filters\<lparr>min_length := Some n\<rparr>))
                    | None \<Rightarrow> Inr filters)
                   (\<lambda>filters.
                      bind_result
                        (case r4 of
                           Some g \<Rightarrow> bind_result (py_int g) (\<lambda>n. Inr (filters\<lparr>max_length := Some n\<rparr>))
                         | None \<Rightarrow> Inr filters)
                        (\<lambda>filters.
                           let filters =
                                 (case r5 of
                                    Some g \<Rightarrow> filters\<lparr>contains_character := Some g\<rparr>
                                  | None \<Rightarrow> filters);
                               filters =
                                 (if fv then filters\<lparr>contains_character := Some ''a''\<rparr> else filters);
                               filters =
                                 (if lv then filters\<lparr>contains_character := Some ''u''\<rparr> else filters)
                           in Inr filters))))) =
   (if (case r1 of None \<Rightarrow> True | Some g \<Rightarrow> length g \<le> int_max_str_digits)
       \<and> (case r2 of None \<Rightarrow> True | Some g \<Rightarrow> length g \<le> int_max_str_digits)
       \<and> (case r3 of None \<Rightarrow> True | Some g \<Rightarrow> length g \<le> int_max_str_digits)
       \<and> (case r4 of None \<Rightarrow> True | Some g \<Rightarrow> length g \<le> int_max_str_digits)
    then Inr \<lparr> word_count =
                 (if b1 then Some 1 else if b2 then Some 2 else if b3 then Some 3 else None),
               is_palindrome = (if p then Some True else None),
               min_length =
                 (case r3 of
                    Some g \<Rightarrow> Some (decimal_value g)
                  | None \<Rightarrow> (case r1 of Some g \<Rightarrow> Some (decimal_value g + 1) | None \<Rightarrow> None)),
               max_length =
                 (case r4 of
                    Some g \<Rightarrow> Some (decimal_value g)
                  | None \<Rightarrow> (case r2 of Some g \<Rightarrow> Some (decimal_value g - 1) | None \<Rightarrow> None)),
               contains_character =
                 (if lv then Some ''u'' else if fv then Some ''a'' else r5) \<rparr>
    else Inl ValueError)"
  by (cases r1; cases r2; cases r3; cases r4; cases r5;
      simp add: Let_def bind_result_def py_int_def empty_filters_def)

text \<open>
  The parser raises exactly when a numeral that it reads has more than 4300 digits, and
  otherwise returns the filters below, field by field.
\<close>

lemma parse_eq:
  "parse_natural_language_query q =
     (if numerals_fit (str_lower q)
      then Inr \<lparr> word_count =
                   (if str_contains ''single word'' (str_lower q)
                       \<or> str_contains ''one word'' (str_lower q) then Some 1
                    else if str_contains ''two word'' (str_lower q)
                       \<or> str_contains ''2 word'' (str_lower q) then Some 2
                    else if str_contains ''three word'' (str_lower q)
                       \<or> str_contains ''3 word'' (str_lower q) then Some 3
                    else None),
                 is_palindrome =
                   (if str_contains ''palindrom'' (str_lower q) then Some True else None),
                 min_length =
                   (case re_search (match_number ''at least '') (str_lower q) of
                      Some g \<Rightarrow> Some (decimal_value g)
                    | None \<Rightarrow>
                        (case re_search (match_number ''longer than '') (str_lower q) of
                           Some g \<Rightarrow> Some (decimal_value g + 1)
                         | None \<Rightarrow> None)),
                 max_length =
                   (case re_search (match_number ''at most '') (str_lower q) of
                      Some g \<Rightarrow> Some (decimal_value g)
                    | None \<Rightarrow>
                        (case re_search (match_number ''shorter than '') (str_lower q) of
                           Some g \<Rightarrow> Some (decimal_value g - 1)
                         | None \<Rightarrow> None)),
                 contains_character =
                   (if str_contains ''last vowel'' (str_lower q) then Some ''u''
                    else if str_contains ''first vowel'' (str_lower q) then Some ''a''
                    else re_search match_letter (str_lower q)) \<rparr>
      else Inl ValueError)"
  unfolding parse_natural_language_query_def numerals_fit_def numeral_fits_def Let_def
  by (rule parse_body [unfolded Let_def])

lemma parse_raises_iff:
  "parse_natural_language_query q = Inl ValueError \<longleftrightarrow> \<not> numerals_fit (str_lower q)"
  by (simp add: parse_eq)

lemma parse_returns_iff:
  "(\<exists>filters. parse_natural_language_query q = Inr filters) \<longleftrightarrow> numerals_fit (str_lower q)"
  by (simp add: parse_eq)

text \<open>
  Each field of the outcome: \<open>map_sum id f\<close> keeps the error where the parser raises and
  takes the field \<open>f\<close> of the filters where it returns. Of the rules that write a field, the
  one that the parser evaluates last and that fires gives the value, but for \<open>word_count\<close>,
  whose three rules are the branches of one \<open>if ... elif ... elif\<close>.
\<close>

lemma word_count_parse:
  "map_sum id word_count (parse_natural_language_query q) =
     (if numerals_fit (str_lower q)
      then Inr (if str_contains ''single word'' (str_lower q)
                   \<or> str_contains ''one word'' (str_lower q) then Some 1
                else if str_contains ''two word'' (str_lower q)
                   \<or> str_contains ''2 word'' (str_lower q) then Some 2
                else if str_contains ''three word'' (str_lower q)
                   \<or> str_contains ''3 word'' (str_lower q) then Some 3
                else None)
      else Inl ValueError)"
  by (simp add: parse_eq)

lemma min_length_parse:
  "map_sum id min_length (parse_natural_language_query q) =
     (if numerals_fit (str_lower q)
      then Inr (case re_search (match_number ''at least '') (str_lower q) of
                  Some g \<Rightarrow> Some (decimal_value g)
                | None \<Rightarrow>
                    (case re_search (match_number ''longer than '') (str_lower q) of
                       Some g \<Rightarrow> Some (decimal_value g + 1)
                     | None \<Rightarrow> None))
      else Inl ValueError)"
  by (simp add: parse_eq)

lemma max_length_parse:
  "map_sum id max_length (parse_natural_language_query q) =
     (if numerals_fit (str_lower q)
      then Inr (case re_search (match_number ''at most '') (str_lower q) of
                  Some g \<Rightarrow> Some (decimal_value g)
                | None \<Rightarrow>
                    (case re_search (match_number ''shorter than '') (str_lower q) of
                       Some g \<Rightarrow> Some (decimal_value g - 1)
                     | None \<Rightarrow> None))
      else Inl ValueError)"
  by (simp add: parse_eq)

lemma contains_character_parse:
  "map_sum id contains_character (parse_natural_language_query q) =
     (if numerals_fit (str_lower q)
      then Inr (if str_contains ''last vowel'' (str_lower q) then Some ''u''
                else if str_contains ''first vowel'' (str_lower q) then Some ''a''
                else re_search match_letter (str_lower q))
      else Inl ValueError)"
  by (simp add: parse_eq)

text \<open>A query with a numeral of more than 4300 digits after one of the four patterns.\<close>

lemma parse_raises_too_long:
  assumes "re_search (match_number pre) (str_lower q) = Some g"
    and "int_max_str_digits < length g"
    and "pre = ''longer than '' \<or> pre = ''shorter than '' \<or> pre = ''at least '' \<or> pre = ''at most ''"
  shows "parse_natural_language_query q = Inl ValueError"
proof -
  have "\<not> numeral_fits pre (str_lower q)"
    using assms(1, 2) by (simp add: numeral_fits_def)
  with assms(3) have "\<not> numerals_fit (str_lower q)"
    unfolding numerals_fit_def by blast
  then show ?thesis by (simp add: parse_raises_iff)
qed

lemma str_lower_digit_run:
  assumes "lower_char d = d"
  shows "str_lower (a @ replicate n d) = str_lower a @ replicate n d"
  using assms by (simp add: str_lower_def)

subsection \<open>Word-count phrases\<close>

text \<open>
  C2, as the specification states it, fails: the query below holds a phrase for the count 1
  and a phrase for the count 3, and the parser returns \<open>word_count = 1\<close> alone, the count
  of the rule evaluated first, not 3.
\<close>

theorem word_count_later_rule_counterexample:
  "str_contains ''single word'' (str_lower ''single word or three word strings'')
   \<and> str_contains ''three word'' (str_lower ''single word or three word strings'')
   \<and> parse_natural_language_query ''single word or three word strings''
       = Inr (empty_filters\<lparr>word_count := Some 1\<rparr>)
   \<and> map_sum id word_count (parse_natural_language_query ''single word or three word strings'')
       \<noteq> Inr (Some 3)"
proof -
  have l: "str_lower ''single word or three word strings'' = ''single word or three word strings''"
    by code_simp
  have a: "str_contains ''single word'' ''single word or three word strings''" by code_simp
  have b: "str_contains ''three word'' ''single word or three word strings''" by code_simp
  have c: "parse_natural_language_query ''single word or three word strings''
             = Inr (empty_filters\<lparr>word_count := Some 1\<rparr>)"
    by code_simp
  show ?thesis unfolding l c using a b by simp
qed

text \<open>
  C2, amended. Where no numeral that the parser reads has more than 4300 digits, the parser
  returns, and the three word-count rules are tried in the order 1, 2, 3: the first whose
  phrase occurs in the lowercased query gives \<open>word_count\<close>, a phrase of a later rule then
  has no effect, and without any of the phrases \<open>word_count\<close> is absent. Where a numeral
  has more than 4300 digits the parser raises \<open>ValueError\<close> and returns no filters, as it
  does on the third query below.
\<close>

theorem word_count_first_rule_wins:
  "map_sum id word_count (parse_natural_language_query q) =
     (if numerals_fit (str_lower q)
      then Inr (if str_contains ''single word'' (str_lower q)
                   \<or> str_contains ''one word'' (str_lower q) then Some 1
                else if str_contains ''two word'' (str_lower q)
                   \<or> str_contains ''2 word'' (str_lower q) then Some 2
                else if str_contains ''three word'' (str_lower q)
                   \<or> str_contains ''3 word'' (str_lower q) then Some 3
                else None)
      else Inl ValueError)
   \<and> parse_natural_language_query ''Two Word or 3 word strings''
       = Inr (empty_filters\<lparr>word_count := Some 2\<rparr>)
   \<and> parse_natural_language_query
         (''single word or three word at least '' @ replicate 4301 CHR ''1'')
       = Inl ValueError"
proof -
  have ex: "parse_natural_language_query ''Two Word or 3 word strings''
              = Inr (empty_filters\<lparr>word_count := Some 2\<rparr>)"
    by code_simp
  have d: "isdecimal CHR ''1''" "lower_char CHR ''1'' = CHR ''1''" by code_simp+
  have "str_lower ''single word or three word at least '' = ''single word or three word at least ''"
    by code_simp
  then have l: "str_lower (''single word or three word at least '' @ replicate 4301 CHR ''1'')
                  = ''single word or three word at least '' @ replicate 4301 CHR ''1''"
    by (simp only: str_lower_digit_run [OF d(2)])
  have s: "re_search (match_number ''at least '')
             (''single word or three word at least '' @ replicate n CHR ''1'')
             = Some (replicate n CHR ''1'')" if "0 < n" for n
    using that d(1) by (simp add: match_number_def takeWhile_replicate)
  have "re_search (match_number ''at least '')
          (str_lower (''single word or three word at least '' @ replicate 4301 CHR ''1''))
          = Some (replicate 4301 CHR ''1'')"
    unfolding l by (rule s) simp
  then have r: "parse_natural_language_query
                  (''single word or three word at least '' @ replicate 4301 CHR ''1'')
                  = Inl ValueError"
    by (rule parse_raises_too_long) (simp_all add: int_max_str_digits_def)
  from ex r show ?thesis by (simp only: word_count_parse simp_thms)
qed

subsection \<open>Length bounds\<close>

text \<open>
  C5, as the specification states it, fails: the lowercased query below matches
  \<open>longer than 10\<close>, and the parser returns \<open>min_length = 3\<close> alone, not 11: the rule for
  \<open>at least 3\<close> is evaluated later and writes the same key.
\<close>

theorem longer_than_overwritten_counterexample:
  "re_search (match_number ''longer than '')
       (str_lower ''strings longer than 10 characters and at least 3'') = Some ''10''
   \<and> py_int ''10'' = Inr 10
   \<and> parse_natural_language_query ''strings longer than 10 characters and at least 3''
       = Inr (empty_filters\<lparr>min_length := Some 3\<rparr>)
   \<and> map_sum id min_length
         (parse_natural_language_query ''strings longer than 10 characters and at least 3'')
       \<noteq> Inr (Some (10 + 1))"
proof -
  have a: "re_search (match_number ''longer than '')
             (str_lower ''strings longer than 10 characters and at least 3'') = Some ''10''"
    by code_simp
  have b: "py_int ''10'' = Inr 10" by code_simp
  have c: "parse_natural_language_query ''strings longer than 10 characters and at least 3''
             = Inr (empty_filters\<lparr>min_length := Some 3\<rparr>)"
    by code_simp
  show ?thesis unfolding a b c by simp
qed

text \<open>
  C5, amended. Let the numeral of a pattern be the longest run of digits at the leftmost
  place where the pattern matches the lowercased query. Where none of the four numerals
  has more than 4300 digits the parser returns, and: if \<open>at least <N>\<close> matches then
  \<open>min_length\<close> is N; if it does not and \<open>longer than <N>\<close> matches then \<open>min_length\<close> is
  N + 1; if \<open>at most <N>\<close> matches then \<open>max_length\<close> is N; if it does not and
  \<open>shorter than <N>\<close> matches then \<open>max_length\<close> is N - 1, which is - 1 for
  \<open>shorter than 0\<close>. The query \<open>strings longer than 10 characters\<close> gives \<open>min_length\<close> 11.
  Where a numeral has more than 4300 digits \<open>int\<close> raises \<open>ValueError\<close> and the parser
  returns no filters, as on \<open>at least\<close> followed by 4301 digits.
\<close>

theorem length_bounds_parse:
  "map_sum id min_length (parse_natural_language_query q) =
     (if numerals_fit (str_lower q)
      then Inr (case re_search (match_number ''at least '') (str_lower q) of
                  Some g \<Rightarrow> Some (decimal_value g)
                | None \<Rightarrow>
                    (case re_search (match_number ''longer than '') (str_lower q) of
                       Some g \<Rightarrow> Some (decimal_value g + 1)
                     | None \<Rightarrow> None))
      else Inl ValueError)
   \<and> map_sum id max_length (parse_natural_language_query q) =
     (if numerals_fit (str_lower q)
      then Inr (case re_search (match_number ''at most '') (str_lower q) of
                  Some g \<Rightarrow> Some (decimal_value g)
                | None \<Rightarrow>
                    (case re_search (match_number ''shorter than '') (str_lower q) of
                       Some g \<Rightarrow> Some (decimal_value g - 1)
                     | None \<Rightarrow> None))
      else Inl ValueError)
   \<and> parse_natural_language_query ''strings longer than 10 characters''
       = Inr (empty_filters\<lparr>min_length := Some 11\<rparr>)
   \<and> parse_natural_language_query ''shorter than 0''
       = Inr (empty_filters\<lparr>max_length := Some (- 1)\<rparr>)
   \<and> parse_natural_language_query ''At Least 5''
       = Inr (empty_filters\<lparr>min_length := Some 5\<rparr>)
   \<and> parse_natural_language_query ''at most 007 characters''
       = Inr (empty_filters\<lparr>max_length := Some 7\<rparr>)
   \<and> parse_natural_language_query (''at least '' @ replicate 4301 CHR ''1'') = Inl ValueError"
proof -
  have e1: "parse_natural_language_query ''strings longer than 10 characters''
              = Inr (empty_filters\<lparr>min_length := Some 11\<rparr>)"
    by code_simp
  have e2: "parse_natural_language_query ''shorter than 0''
              = Inr (empty_filters\<lparr>max_length := Some (- 1)\<rparr>)"
    by code_simp
  have e3: "parse_natural_language_query ''At Least 5''
              = Inr (empty_filters\<lparr>min_length := Some 5\<rparr>)"
    by code_simp
  have e4: "parse_natural_language_query ''at most 007 characters''
              = Inr (empty_filters\<lparr>max_length := Some 7\<rparr>)"
    by code_simp
  have d: "isdecimal CHR ''1''" "lower_char CHR ''1'' = CHR ''1''" by code_simp+
  have "str_lower ''at least '' = ''at least ''" by code_simp
  then have l: "str_lower (''at least '' @ replicate 4301 CHR ''1'')
                  = ''at least '' @ replicate 4301 CHR ''1''"
    by (simp only: str_lower_digit_run [OF d(2)])
  have s: "re_search (match_number ''at least '') (''at least '' @ replicate n CHR ''1'')
             = Some (replicate n CHR ''1'')" if "0 < n" for n
    using that d(1) by (simp add: match_number_def takeWhile_replicate)
  have "re_search (match_number ''at least '')
          (str_lower (''at least '' @ replicate 4301 CHR ''1''))
          = Some (replicate 4301 CHR ''1'')"
    unfolding l by (rule s) simp
  then have e5: "parse_natural_language_query (''at least '' @ replicate 4301 CHR ''1'')
                   = Inl ValueError"
    by (rule parse_raises_too_long) (simp_all add: int_max_str_digits_def)
  from e1 e2 e3 e4 e5 show ?thesis
    by (simp only: min_length_parse max_length_parse simp_thms)
qed

subsection \<open>The first and the last vowel\<close>

text \<open>
  C6, as the specification states it, fails in one part: on this query the letter pattern
  does match. After \<open>contain\<close> it takes \<open> the\<close>, then a space and the letter \<open>f\<close> of
  \<open>first\<close>.
\<close>

theorem letter_pattern_matches_counterexample:
  "re_search match_letter (str_lower ''palindromic strings that contain the first vowel'')
     = Some ''f''"
  by code_simp

text \<open>
  C6, amended. The query \<open>palindromic strings that contain the first vowel\<close> is parsed to
  exactly \<open>is_palindrome = True\<close> and \<open>contains_character = a\<close>. Where the parser returns,
  that is where no numeral that it reads has more than 4300 digits, the phrase
  \<open>last vowel\<close> gives \<open>contains_character = u\<close>; without it the phrase \<open>first vowel\<close> gives
  \<open>a\<close>; without both the letter pattern decides. The fixed phrases are evaluated after the
  letter pattern: on this query the pattern matches the letter \<open>f\<close>, and \<open>first vowel\<close>
  writes \<open>a\<close> over it. Where a numeral has more than 4300 digits the parser raises
  \<open>ValueError\<close> before it reaches these rules, as on the last query below.
\<close>

theorem first_vowel_query_parse:
  "parse_natural_language_query ''palindromic strings that contain the first vowel'' =
     Inr \<lparr> word_count = None, is_palindrome = Some True, min_length = None,
           max_length = None, contains_character = Some ''a'' \<rparr>
   \<and> map_sum id contains_character (parse_natural_language_query q) =
       (if numerals_fit (str_lower q)
        then Inr (if str_contains ''last vowel'' (str_lower q) then Some ''u''
                  else if str_contains ''first vowel'' (str_lower q) then Some ''a''
                  else re_search match_letter (str_lower q))
        else Inl ValueError)
   \<and> parse_natural_language_query ''strings containing the letter z''
       = Inr (empty_filters\<lparr>contains_character := Some ''z''\<rparr>)
   \<and> parse_natural_language_query (''first vowel longer than '' @ replicate 4301 CHR ''9'')
       = Inl ValueError"
proof -
  have e1: "parse_natural_language_query ''palindromic strings that contain the first vowel'' =
     Inr \<lparr> word_count = None, is_palindrome = Some True, min_length = None,
           max_length = None, contains_character = Some ''a'' \<rparr>"
    by code_simp
  have e2: "parse_natural_language_query ''strings containing the letter z''
              = Inr (empty_filters\<lparr>contains_character := Some ''z''\<rparr>)"
    by code_simp
  have d: "isdecimal CHR ''9''" "lower_char CHR ''9'' = CHR ''9''" by code_simp+
  have "str_lower ''first vowel longer than '' = ''first vowel longer than ''" by code_simp
  then have l: "str_lower (''first vowel longer than '' @ replicate 4301 CHR ''9'')
                  = ''first vowel longer than '' @ replicate 4301 CHR ''9''"
    by (simp only: str_lower_digit_run [OF d(2)])
  have s: "re_search (match_number ''longer than '')
             (''first vowel longer than '' @ replicate n CHR ''9'')
             = Some (replicate n CHR ''9'')" if "0 < n" for n
    using that d(1) by (simp add: match_number_def takeWhile_replicate)
  have "re_search (match_number ''longer than '')
          (str_lower (''first vowel longer than '' @ replicate 4301 CHR ''9''))
          = Some (replicate 4301 CHR ''9'')"
    unfolding l by (rule s) simp
  then have e3: "parse_natural_language_query
                   (''first vowel longer than '' @ replicate 4301 CHR ''9'')
                   = Inl ValueError"
    by (rule parse_raises_too_long) (simp_all add: int_max_str_digits_def)
  from e1 e2 e3 show ?thesis
    by (simp only: contains_character_parse simp_thms)
qed

end
